theory Spec2Isabelle
  imports Complex_Main "HOL-Library.AList" "HOL-Library.Log_Nat"
begin

section \<open>Stream-record processing: validation, enrichment, aggregation\<close>

text \<open>
  A shallow embedding of \<^verbatim>\<open>06-kafka-spark-streaming/app/data_processor.py\<close>.

  A record is a Python \<^verbatim>\<open>Dict[str, Any]\<close> holding scalar values, as JSON gives them:
  \<^verbatim>\<open>None\<close>, booleans, integers (unbounded), floats and strings. A float is an
  IEEE 754 double: a finite one is \<open>VFloat r\<close> with its value \<open>r\<close>, a rational, the
  others are the infinities and NaN. The statements hold for every rational \<open>r\<close>, so
  for every double. Floats are taken up to \<^verbatim>\<open>==\<close>, so \<^verbatim>\<open>-0.0\<close> is \<^verbatim>\<open>0.0\<close>. Float
  arithmetic rounds to the nearest double, ties to even. Every Python exception the code
  can raise on such values is a value of \<open>pyerr\<close>.
\<close>

subsection \<open>Python values\<close>

datatype pyval =
  VNone | VBool bool | VInt int | VFloat rat | VPosInf | VNegInf | VNaN | VStr string

datatype pyerr = TypeError | KeyError | ZeroDivisionError | ValueError | OverflowError

type_synonym pydict = "string \<rightharpoonup> pyval"

text \<open>
  The value of a finite number: \<^verbatim>\<open>bool\<close> is a subclass of \<^verbatim>\<open>int\<close>. Infinities, NaN
  and the values that are not numbers have none.
\<close>

fun num_of :: "pyval \<Rightarrow> rat option" where
  "num_of (VBool b) = Some (if b then 1 else 0)"
| "num_of (VInt i) = Some (of_int i)"
| "num_of (VFloat r) = Some r"
| "num_of _ = None"

text \<open>The value of any number, for comparisons and float arithmetic.\<close>

datatype xnum = Fin rat | PosInf | NegInf | NaN

fun xnum_of :: "pyval \<Rightarrow> xnum option" where
  "xnum_of VPosInf = Some PosInf"
| "xnum_of VNegInf = Some NegInf"
| "xnum_of VNaN = Some NaN"
| "xnum_of v = map_option Fin (num_of v)"

text \<open>
  Python compares an integer with a float by value, without rounding the integer. Every
  comparison with NaN is false.
\<close>

fun x_lt :: "xnum \<Rightarrow> xnum \<Rightarrow> bool" where
  "x_lt (Fin a) (Fin b) = (a < b)"
| "x_lt NaN _ = False"
| "x_lt _ NaN = False"
| "x_lt _ NegInf = False"
| "x_lt NegInf _ = True"
| "x_lt PosInf _ = False"
| "x_lt _ PosInf = True"

fun x_le :: "xnum \<Rightarrow> xnum \<Rightarrow> bool" where
  "x_le (Fin a) (Fin b) = (a \<le> b)"
| "x_le NaN _ = False"
| "x_le _ NaN = False"
| "x_le NegInf _ = True"
| "x_le _ PosInf = True"
| "x_le _ _ = False"

fun x_eq :: "xnum \<Rightarrow> xnum \<Rightarrow> bool" where
  "x_eq (Fin a) (Fin b) = (a = b)"
| "x_eq PosInf PosInf = True"
| "x_eq NegInf NegInf = True"
| "x_eq _ _ = False"

text \<open>Strings compare by code point, lexicographically.\<close>

fun str_lt :: "string \<Rightarrow> string \<Rightarrow> bool" where
  "str_lt [] [] = False"
| "str_lt [] (y # ys) = True"
| "str_lt (x # xs) [] = False"
| "str_lt (x # xs) (y # ys) =
     (if (of_char x :: nat) < of_char y then True
      else if (of_char y :: nat) < of_char x then False
      else str_lt xs ys)"

text \<open>
  \<^verbatim>\<open>a < b\<close> and \<^verbatim>\<open>a <= b\<close>: numbers compare with numbers, strings with strings,
  anything else raises \<^verbatim>\<open>TypeError\<close>. \<^verbatim>\<open>a > b\<close> is \<^verbatim>\<open>b < a\<close>.
\<close>

definition py_lt :: "pyval \<Rightarrow> pyval \<Rightarrow> pyerr + bool" where
  "py_lt a b =
     (case (xnum_of a, xnum_of b) of
        (Some x, Some y) \<Rightarrow> Inr (x_lt x y)
      | _ \<Rightarrow> (case (a, b) of
                (VStr s, VStr t) \<Rightarrow> Inr (str_lt s t)
              | _ \<Rightarrow> Inl TypeError))"

definition py_le :: "pyval \<Rightarrow> pyval \<Rightarrow> pyerr + bool" where
  "py_le a b =
     (case (xnum_of a, xnum_of b) of
        (Some x, Some y) \<Rightarrow> Inr (x_le x y)
      | _ \<Rightarrow> (case (a, b) of
                (VStr s, VStr t) \<Rightarrow> Inr (s = t \<or> str_lt s t)
              | _ \<Rightarrow> Inl TypeError))"

definition py_gt :: "pyval \<Rightarrow> pyval \<Rightarrow> pyerr + bool" where
  "py_gt a b = py_lt b a"

text \<open>
  \<^verbatim>\<open>a == b\<close> on scalars: numbers by value (\<^verbatim>\<open>True == 1 == 1.0\<close>, NaN equal to nothing),
  the rest structurally.
\<close>

definition py_eq :: "pyval \<Rightarrow> pyval \<Rightarrow> bool" where
  "py_eq a b =
     (case (xnum_of a, xnum_of b) of
        (Some x, Some y) \<Rightarrow> x_eq x y
      | (None, None) \<Rightarrow> a = b
      | _ \<Rightarrow> False)"

subsection \<open>Float arithmetic\<close>

text \<open>
  The double nearest to a rational, ties to even: with \<open>2 ^ e \<le> \<bar>x\<bar> < 2 ^ (e + 1)\<close>,
  the multiple of \<open>2 ^ q\<close> nearest to \<open>x\<close>, where \<open>q = e - 52\<close>, or \<open>- 1074\<close> for a
  subnormal; an infinity when that reaches \<open>2 ^ 1024\<close>.
\<close>

definition round_half_even :: "rat \<Rightarrow> int" where
  "round_half_even x =
     (let f = \<lfloor>x\<rfloor>; d = x - of_int f
      in if d < 1 / 2 then f else if 1 / 2 < d then f + 1 else if even f then f else f + 1)"

definition floor_log2 :: "rat \<Rightarrow> int" where
  "floor_log2 x = (if 1 \<le> x then bitlen \<lfloor>x\<rfloor> - 1 else - bitlen (\<lceil>1 / x\<rceil> - 1))"

definition pow2 :: "int \<Rightarrow> rat" where
  "pow2 k = (if 0 \<le> k then 2 ^ nat k else 1 / 2 ^ nat (- k))"

definition round_double :: "rat \<Rightarrow> xnum" where
  "round_double x =
     (if x = 0 then Fin 0
      else let q = max (floor_log2 \<bar>x\<bar> - 52) (- 1074);
               m = round_half_even (\<bar>x\<bar> / pow2 q)
           in if 971 < q \<or> (q = 971 \<and> m = 2 ^ 53) then (if 0 < x then PosInf else NegInf)
              else Fin (if 0 < x then of_int m * pow2 q else - (of_int m * pow2 q)))"

text \<open>
  The float of a number, as \<^verbatim>\<open>+\<close>, \<^verbatim>\<open>*\<close> and \<^verbatim>\<open>/\<close> take it when the other operand is
  a float: an integer is rounded, and one too large for a double raises
  \<^verbatim>\<open>OverflowError\<close>.
\<close>

fun to_double :: "pyval \<Rightarrow> pyerr + xnum" where
  "to_double (VBool b) = Inr (Fin (if b then 1 else 0))"
| "to_double (VInt i) =
     (case round_double (of_int i) of Fin r \<Rightarrow> Inr (Fin r) | _ \<Rightarrow> Inl OverflowError)"
| "to_double (VFloat r) = Inr (Fin r)"
| "to_double VPosInf = Inr PosInf"
| "to_double VNegInf = Inr NegInf"
| "to_double VNaN = Inr NaN"
| "to_double _ = Inl TypeError"

fun val_of :: "xnum \<Rightarrow> pyval" where
  "val_of (Fin r) = VFloat r"
| "val_of PosInf = VPosInf"
| "val_of NegInf = VNegInf"
| "val_of NaN = VNaN"

fun x_neg :: "xnum \<Rightarrow> xnum" where
  "x_neg (Fin a) = Fin (- a)"
| "x_neg PosInf = NegInf"
| "x_neg NegInf = PosInf"
| "x_neg NaN = NaN"

text \<open>Sum, product and quotient of two doubles; an overflow gives an infinity.\<close>

fun fl_add :: "xnum \<Rightarrow> xnum \<Rightarrow> xnum" where
  "fl_add (Fin a) (Fin b) = round_double (a + b)"
| "fl_add NaN _ = NaN"
| "fl_add _ NaN = NaN"
| "fl_add PosInf NegInf = NaN"
| "fl_add NegInf PosInf = NaN"
| "fl_add PosInf _ = PosInf"
| "fl_add _ PosInf = PosInf"
| "fl_add NegInf _ = NegInf"
| "fl_add _ NegInf = NegInf"

fun fl_mul :: "xnum \<Rightarrow> xnum \<Rightarrow> xnum" where
  "fl_mul (Fin a) (Fin b) = round_double (a * b)"
| "fl_mul NaN _ = NaN"
| "fl_mul _ NaN = NaN"
| "fl_mul (Fin a) y = (if a = 0 then NaN else if 0 < a then y else x_neg y)"
| "fl_mul x (Fin b) = (if b = 0 then NaN else if 0 < b then x else x_neg x)"
| "fl_mul PosInf y = y"
| "fl_mul NegInf y = x_neg y"

text \<open>The divisor is not zero: Python tests that before dividing.\<close>

fun fl_div :: "xnum \<Rightarrow> xnum \<Rightarrow> xnum" where
  "fl_div (Fin a) (Fin b) = round_double (a / b)"
| "fl_div NaN _ = NaN"
| "fl_div _ NaN = NaN"
| "fl_div (Fin a) _ = Fin 0"
| "fl_div x (Fin b) = (if 0 < b then x else x_neg x)"
| "fl_div _ _ = NaN"

text \<open>Sequencing of a computation that may raise.\<close>

definition ebind :: "pyerr + 'a \<Rightarrow> ('a \<Rightarrow> pyerr + 'b) \<Rightarrow> pyerr + 'b" where
  "ebind m f = (case m of Inl e \<Rightarrow> Inl e | Inr x \<Rightarrow> f x)"

text \<open>
  \<^verbatim>\<open>a + b\<close>: integers stay integers; with a float operand both are taken as doubles and
  the sum is a double; strings concatenate.
\<close>

fun is_intlike :: "pyval \<Rightarrow> int option" where
  "is_intlike (VBool b) = Some (if b then 1 else 0)"
| "is_intlike (VInt i) = Some i"
| "is_intlike _ = None"

definition py_add :: "pyval \<Rightarrow> pyval \<Rightarrow> pyerr + pyval" where
  "py_add a b =
     (case (is_intlike a, is_intlike b) of
        (Some i, Some j) \<Rightarrow> Inr (VInt (i + j))
      | _ \<Rightarrow> (case (xnum_of a, xnum_of b) of
                (Some _, Some _) \<Rightarrow>
                  ebind (to_double a) (\<lambda>x. ebind (to_double b) (\<lambda>y. Inr (val_of (fl_add x y))))
              | _ \<Rightarrow> (case (a, b) of
                        (VStr s, VStr t) \<Rightarrow> Inr (VStr (s @ t))
                      | _ \<Rightarrow> Inl TypeError)))"

text \<open>\<^verbatim>\<open>c * b\<close> for a float literal \<open>c\<close>: a double for a number, \<^verbatim>\<open>TypeError\<close> otherwise.\<close>

definition py_float_mul :: "rat \<Rightarrow> pyval \<Rightarrow> pyerr + pyval" where
  "py_float_mul c b =
     (case xnum_of b of
        None \<Rightarrow> Inl TypeError
      | Some _ \<Rightarrow> ebind (to_double b) (\<lambda>y. Inr (val_of (fl_mul (Fin c) y))))"

text \<open>
  \<^verbatim>\<open>a / b\<close>: true division, always a float. The quotient of two integers is rounded once,
  and raises \<^verbatim>\<open>OverflowError\<close> when it is too large for a double.
\<close>

definition py_truediv :: "pyval \<Rightarrow> pyval \<Rightarrow> pyerr + pyval" where
  "py_truediv a b =
     (case (is_intlike a, is_intlike b) of
        (Some i, Some j) \<Rightarrow>
          (if j = 0 then Inl ZeroDivisionError
           else case round_double (of_int i / of_int j) of
                  Fin r \<Rightarrow> Inr (VFloat r)
                | _ \<Rightarrow> Inl OverflowError)
      | _ \<Rightarrow> (case (xnum_of a, xnum_of b) of
                (Some _, Some _) \<Rightarrow>
                  ebind (to_double a) (\<lambda>x. ebind (to_double b) (\<lambda>y.
                    if y = Fin 0 then Inl ZeroDivisionError else Inr (val_of (fl_div x y))))
              | _ \<Rightarrow> Inl TypeError))"

text \<open>Truthiness of a scalar.\<close>

fun truthy :: "pyval \<Rightarrow> bool" where
  "truthy VNone = False"
| "truthy (VBool b) = b"
| "truthy (VInt i) = (i \<noteq> 0)"
| "truthy (VFloat r) = (r \<noteq> 0)"
| "truthy (VStr s) = (s \<noteq> [])"
| "truthy _ = True"

text \<open>\<^verbatim>\<open>d[k]\<close> raises \<^verbatim>\<open>KeyError\<close> on a missing key; \<^verbatim>\<open>d.get(k, dflt)\<close> does not.\<close>

definition getitem :: "pydict \<Rightarrow> string \<Rightarrow> pyerr + pyval" where
  "getitem d k = (case d k of None \<Rightarrow> Inl KeyError | Some v \<Rightarrow> Inr v)"

definition dict_get :: "pydict \<Rightarrow> string \<Rightarrow> pyval \<Rightarrow> pyval" where
  "dict_get d k dflt = (case d k of None \<Rightarrow> dflt | Some v \<Rightarrow> v)"

text \<open>
  A chained comparison \<^verbatim>\<open>lo <= x <= hi\<close> evaluates \<^verbatim>\<open>lo <= x\<close> and, only when it
  holds, \<^verbatim>\<open>x <= hi\<close>.
\<close>

definition py_between :: "pyval \<Rightarrow> pyval \<Rightarrow> pyval \<Rightarrow> pyerr + bool" where
  "py_between lo x hi = ebind (py_le lo x) (\<lambda>b. if b then py_le x hi else Inr False)"

subsection \<open>Validators\<close>

text \<open>\<^verbatim>\<open>all(field in data for field in required_fields)\<close>\<close>

definition all_present :: "pydict \<Rightarrow> string list \<Rightarrow> bool" where
  "all_present data required_fields = list_all (\<lambda>field. data field \<noteq> None) required_fields"

definition validate_user_event :: "pydict \<Rightarrow> pyerr + bool" where
  "validate_user_event data =
     Inr (all_present data [''user_id'', ''event_type'', ''timestamp''])"

definition validate_sensor_data :: "pydict \<Rightarrow> pyerr + bool" where
  "validate_sensor_data data =
     (if \<not> all_present data
            [''sensor_id'', ''temperature'', ''humidity'', ''pressure'', ''timestamp'']
      then Inr False
      else ebind (getitem data ''temperature'') (\<lambda>t.
           ebind (py_between (VInt 0) t (VInt 50)) (\<lambda>t_ok.
           if \<not> t_ok then Inr False
           else ebind (getitem data ''humidity'') (\<lambda>h.
                ebind (py_between (VInt 0) h (VInt 100)) (\<lambda>h_ok.
                if \<not> h_ok then Inr False else Inr True)))))"

definition valid_currencies :: "pyval list" where
  "valid_currencies = [VStr ''USD'', VStr ''EUR'', VStr ''GBP'']"

definition validate_transaction :: "pydict \<Rightarrow> pyerr + bool" where
  "validate_transaction data =
     (if \<not> all_present data
            [''transaction_id'', ''user_id'', ''amount'', ''currency'', ''timestamp'']
      then Inr False
      else ebind (getitem data ''amount'') (\<lambda>amount.
           ebind (py_le amount (VInt 0)) (\<lambda>nonpos.
           if nonpos then Inr False
           else ebind (getitem data ''currency'') (\<lambda>currency.
                if \<not> list_ex (py_eq currency) valid_currencies then Inr False
                else Inr True))))"

subsection \<open>Objects and the clock\<close>

text \<open>
  \<^verbatim>\<open>data.copy()\<close> allocates a new dictionary object, and \<^verbatim>\<open>enriched[k] = v\<close>
  updates an object in place. The store is the list of the dictionary objects allocated so
  far, an object's address is its index. A statement takes the store and returns the new
  store with either the exception it raised or its value. An address is read only where it
  is allocated (\<open>a < length h\<close>).

  \<^verbatim>\<open>datetime.now().isoformat()\<close> is the parameter \<open>now\<close> of each enricher.
\<close>

type_synonym addr = nat
type_synonym heap = "pydict list"
type_synonym 'a prog = "heap \<Rightarrow> heap \<times> (pyerr + 'a)"

definition hbind :: "'a prog \<Rightarrow> ('a \<Rightarrow> 'b prog) \<Rightarrow> 'b prog" where
  "hbind m f h = (case m h of (h', Inl e) \<Rightarrow> (h', Inl e) | (h', Inr x) \<Rightarrow> f x h')"

definition ret :: "'a \<Rightarrow> 'a prog" where
  "ret x h = (h, Inr x)"

definition lift :: "pyerr + 'a \<Rightarrow> 'a prog" where
  "lift r h = (h, r)"

definition copy_dict :: "addr \<Rightarrow> addr prog" where
  "copy_dict a h = (h @ [h ! a], Inr (length h))"

definition setitem :: "addr \<Rightarrow> string \<Rightarrow> pyval \<Rightarrow> unit prog" where
  "setitem a k v h = (h[a := (h ! a)(k \<mapsto> v)], Inr ())"

definition get :: "addr \<Rightarrow> string \<Rightarrow> pyval \<Rightarrow> pyval prog" where
  "get a k dflt h = (h, Inr (dict_get (h ! a) k dflt))"

text \<open>\<^verbatim>\<open>a and b\<close>, \<^verbatim>\<open>a or b\<close> on comparisons: the right operand is evaluated only if needed.\<close>

definition py_and :: "pyerr + bool \<Rightarrow> pyerr + bool \<Rightarrow> pyerr + bool" where
  "py_and a b = ebind a (\<lambda>x. if x then b else Inr False)"

definition py_or :: "pyerr + bool \<Rightarrow> pyerr + bool \<Rightarrow> pyerr + bool" where
  "py_or a b = ebind a (\<lambda>x. if x then Inr True else b)"

subsection \<open>Enrichers\<close>

definition enrich_user_event :: "string \<Rightarrow> addr \<Rightarrow> addr prog" where
  "enrich_user_event now data =
     hbind (copy_dict data) (\<lambda>enriched.
     hbind (setitem enriched ''processed_at'' (VStr now)) (\<lambda>_.
     hbind (setitem enriched ''data_source'' (VStr ''kafka_stream'')) (\<lambda>_.
     hbind (get data ''user_id'' (VInt 0)) (\<lambda>user_id.
     hbind (lift (py_le user_id (VInt 100))) (\<lambda>le100.
     hbind (if le100 then setitem enriched ''user_segment'' (VStr ''premium'')
            else hbind (lift (py_le user_id (VInt 500))) (\<lambda>le500.
                 if le500 then setitem enriched ''user_segment'' (VStr ''regular'')
                 else setitem enriched ''user_segment'' (VStr ''new''))) (\<lambda>_.
     ret enriched))))))"

definition enrich_sensor_data :: "string \<Rightarrow> addr \<Rightarrow> addr prog" where
  "enrich_sensor_data now data =
     hbind (copy_dict data) (\<lambda>enriched.
     hbind (setitem enriched ''processed_at'' (VStr now)) (\<lambda>_.
     hbind (setitem enriched ''data_source'' (VStr ''kafka_stream'')) (\<lambda>_.
     hbind (get data ''temperature'' (VInt 0)) (\<lambda>temperature.
     hbind (get data ''humidity'' (VInt 0)) (\<lambda>humidity.
     hbind (lift (py_and (py_gt temperature (VInt 27)) (py_gt humidity (VInt 40)))) (\<lambda>hot.
     hbind (if hot
            then hbind (lift (ebind (py_float_mul (1 / 2) humidity) (py_add temperature)))
                   (\<lambda>hi. setitem enriched ''heat_index'' hi)
            else setitem enriched ''heat_index'' temperature) (\<lambda>_.
     hbind (lift (py_or (py_gt temperature (VInt 35)) (py_lt temperature (VInt 5)))) (\<lambda>ta.
     hbind (setitem enriched ''temperature_alert'' (VBool ta)) (\<lambda>_.
     hbind (lift (py_or (py_gt humidity (VInt 90)) (py_lt humidity (VInt 10)))) (\<lambda>ha.
     hbind (setitem enriched ''humidity_alert'' (VBool ha)) (\<lambda>_.
     ret enriched)))))))))))"

definition enrich_transaction :: "string \<Rightarrow> addr \<Rightarrow> addr prog" where
  "enrich_transaction now data =
     hbind (copy_dict data) (\<lambda>enriched.
     hbind (setitem enriched ''processed_at'' (VStr now)) (\<lambda>_.
     hbind (setitem enriched ''data_source'' (VStr ''kafka_stream'')) (\<lambda>_.
     hbind (get data ''amount'' (VInt 0)) (\<lambda>amount.
     hbind (lift (py_lt amount (VInt 50))) (\<lambda>lt50.
     hbind (if lt50 then setitem enriched ''transaction_category'' (VStr ''small'')
            else hbind (lift (py_lt amount (VInt 200))) (\<lambda>lt200.
                 if lt200 then setitem enriched ''transaction_category'' (VStr ''medium'')
                 else setitem enriched ''transaction_category'' (VStr ''large''))) (\<lambda>_.
     hbind (lift (py_gt amount (VInt 1000))) (\<lambda>gt1000.
     hbind (if gt1000 then setitem enriched ''fraud_risk'' (VStr ''high'')
            else hbind (lift (py_gt amount (VInt 500))) (\<lambda>gt500.
                 if gt500 then setitem enriched ''fraud_risk'' (VStr ''medium'')
                 else setitem enriched ''fraud_risk'' (VStr ''low''))) (\<lambda>_.
     ret enriched))))))))"

subsection \<open>Aggregators\<close>

text \<open>
  A dictionary keyed by field values finds a key by hash and \<^verbatim>\<open>==\<close>, so \<^verbatim>\<open>True\<close>,
  \<^verbatim>\<open>1\<close> and \<^verbatim>\<open>1.0\<close> are one key. Such a dictionary is an association list in
  insertion order over keys taken up to \<^verbatim>\<open>==\<close>; \<open>AList.update\<close> replaces the value
  of a key in place or appends a new key, as assignment to a Python dictionary does.

  A NaN key is found by object identity, which scalar values do not have: the model
  takes the NaNs of a batch for one object, as are those that \<^verbatim>\<open>json.loads\<close> returns,
  and the statements about these dictionaries leave NaN keys out.
\<close>

datatype pykey = KNone | KNum rat | KPosInf | KNegInf | KNaN | KStr string

fun key_of :: "pyval \<Rightarrow> pykey" where
  "key_of VNone = KNone"
| "key_of (VBool b) = KNum (if b then 1 else 0)"
| "key_of (VInt i) = KNum (of_int i)"
| "key_of (VFloat r) = KNum r"
| "key_of VPosInf = KPosInf"
| "key_of VNegInf = KNegInf"
| "key_of VNaN = KNaN"
| "key_of (VStr s) = KStr s"

definition lookup :: "(pykey \<times> 'v) list \<Rightarrow> pyval \<Rightarrow> 'v \<Rightarrow> 'v" where
  "lookup d k dflt = (case map_of d (key_of k) of None \<Rightarrow> dflt | Some v \<Rightarrow> v)"

definition store :: "(pykey \<times> 'v) list \<Rightarrow> pyval \<Rightarrow> 'v \<Rightarrow> (pykey \<times> 'v) list" where
  "store d k v = AList.update (key_of k) v d"

text \<open>The value of a summary field: a scalar, a dictionary of counts, or one of totals.\<close>

datatype aggval = Scalar pyval | Counts "(pykey \<times> int) list" | Totals "(pykey \<times> pyval) list"

type_synonym summary = "string \<rightharpoonup> aggval"

text \<open>
  \<^verbatim>\<open>sum(xs)\<close> starts from the integer 0 and adds from the left, each float sum rounded
  (CPython up to 3.11; later versions compensate the rounding error of a float sum).
\<close>

fun py_sum_from :: "pyval \<Rightarrow> pyval list \<Rightarrow> pyerr + pyval" where
  "py_sum_from acc [] = Inr acc"
| "py_sum_from acc (x # xs) = ebind (py_add acc x) (\<lambda>acc'. py_sum_from acc' xs)"

definition py_sum :: "pyval list \<Rightarrow> pyerr + pyval" where
  "py_sum xs = py_sum_from (VInt 0) xs"

text \<open>
  \<^verbatim>\<open>max(xs)\<close> keeps the first item and replaces it by each later item that is
  \<^verbatim>\<open>>\<close> it; \<^verbatim>\<open>min(xs)\<close> likewise with \<^verbatim>\<open><\<close>. Both raise \<^verbatim>\<open>ValueError\<close> on
  an empty list.
\<close>

fun py_max_from :: "pyval \<Rightarrow> pyval list \<Rightarrow> pyerr + pyval" where
  "py_max_from m [] = Inr m"
| "py_max_from m (x # xs) = ebind (py_gt x m) (\<lambda>b. py_max_from (if b then x else m) xs)"

fun py_min_from :: "pyval \<Rightarrow> pyval list \<Rightarrow> pyerr + pyval" where
  "py_min_from m [] = Inr m"
| "py_min_from m (x # xs) = ebind (py_lt x m) (\<lambda>b. py_min_from (if b then x else m) xs)"

definition py_max :: "pyval list \<Rightarrow> pyerr + pyval" where
  "py_max xs = (case xs of [] \<Rightarrow> Inl ValueError | x # rest \<Rightarrow> py_max_from x rest)"

definition py_min :: "pyval list \<Rightarrow> pyerr + pyval" where
  "py_min xs = (case xs of [] \<Rightarrow> Inl ValueError | x # rest \<Rightarrow> py_min_from x rest)"

definition py_len :: "'a list \<Rightarrow> pyval" where
  "py_len xs = VInt (int (length xs))"

text \<open>The loop of \<^verbatim>\<open>aggregate_user_events\<close> over \<open>event_types\<close> and \<open>user_activity\<close>.\<close>

fun user_events_loop ::
  "pydict list \<Rightarrow> (pykey \<times> int) list \<Rightarrow> (pykey \<times> pyval list) list
     \<Rightarrow> (pykey \<times> int) list \<times> (pykey \<times> pyval list) list" where
  "user_events_loop [] event_types user_activity = (event_types, user_activity)"
| "user_events_loop (event # rest) event_types user_activity =
     (let event_type = dict_get event ''event_type'' (VStr ''unknown'');
          user_id = dict_get event ''user_id'' (VInt 0);
          event_types' = store event_types event_type (lookup event_types event_type 0 + 1);
          user_activity' = (if map_of user_activity (key_of user_id) = None
                            then store user_activity user_id []
                            else user_activity);
          user_activity'' = store user_activity' user_id
                              (lookup user_activity' user_id [] @ [event_type])
      in user_events_loop rest event_types' user_activity'')"

definition aggregate_user_events :: "pydict list \<Rightarrow> pyerr + summary" where
  "aggregate_user_events events =
     (if events = [] then Inr Map.empty
      else case user_events_loop events [] [] of (event_types, user_activity) \<Rightarrow>
        ebind (if user_activity \<noteq> [] then py_truediv (py_len events) (py_len user_activity)
               else Inr (VInt 0)) (\<lambda>avg.
        Inr [''total_events'' \<mapsto> Scalar (py_len events),
             ''event_type_counts'' \<mapsto> Counts event_types,
             ''active_users'' \<mapsto> Scalar (py_len user_activity),
             ''avg_events_per_user'' \<mapsto> Scalar avg]))"

definition aggregate_sensor_data :: "pydict list \<Rightarrow> pyerr + summary" where
  "aggregate_sensor_data sensor_readings =
     (if sensor_readings = [] then Inr Map.empty
      else
        let temperatures = map (\<lambda>r. dict_get r ''temperature'' (VInt 0)) sensor_readings;
            humidities = map (\<lambda>r. dict_get r ''humidity'' (VInt 0)) sensor_readings;
            pressures = map (\<lambda>r. dict_get r ''pressure'' (VInt 0)) sensor_readings
        in
        ebind (ebind (py_sum temperatures) (\<lambda>s. py_truediv s (py_len temperatures))) (\<lambda>avg_t.
        ebind (ebind (py_sum humidities) (\<lambda>s. py_truediv s (py_len humidities))) (\<lambda>avg_h.
        ebind (ebind (py_sum pressures) (\<lambda>s. py_truediv s (py_len pressures))) (\<lambda>avg_p.
        ebind (py_max temperatures) (\<lambda>max_t.
        ebind (py_min temperatures) (\<lambda>min_t.
        Inr [''total_readings'' \<mapsto> Scalar (py_len sensor_readings),
             ''avg_temperature'' \<mapsto> Scalar avg_t,
             ''avg_humidity'' \<mapsto> Scalar avg_h,
             ''avg_pressure'' \<mapsto> Scalar avg_p,
             ''max_temperature'' \<mapsto> Scalar max_t,
             ''min_temperature'' \<mapsto> Scalar min_t,
             ''alerts'' \<mapsto> Scalar (py_len
                (filter (\<lambda>r. truthy (dict_get r ''temperature_alert'' (VBool False)))
                   sensor_readings))]))))))"

text \<open>The loop of \<^verbatim>\<open>aggregate_transactions\<close> over \<open>currencies\<close> and \<open>merchants\<close>.\<close>

fun transactions_loop ::
  "pydict list \<Rightarrow> (pykey \<times> pyval) list \<Rightarrow> (pykey \<times> int) list
     \<Rightarrow> pyerr + (pykey \<times> pyval) list \<times> (pykey \<times> int) list" where
  "transactions_loop [] currencies merchants = Inr (currencies, merchants)"
| "transactions_loop (transaction # rest) currencies merchants =
     (let currency = dict_get transaction ''currency'' (VStr ''unknown'');
          merchant = dict_get transaction ''merchant'' (VStr ''unknown'')
      in ebind (py_add (lookup currencies currency (VInt 0))
                  (dict_get transaction ''amount'' (VInt 0))) (\<lambda>total.
         transactions_loop rest (store currencies currency total)
           (store merchants merchant (lookup merchants merchant 0 + 1))))"

definition aggregate_transactions :: "pydict list \<Rightarrow> pyerr + summary" where
  "aggregate_transactions transactions =
     (if transactions = [] then Inr Map.empty
      else
        let amounts = map (\<lambda>t. dict_get t ''amount'' (VInt 0)) transactions
        in
        ebind (transactions_loop transactions [] []) (\<lambda>(currencies, merchants).
        ebind (py_sum amounts) (\<lambda>total_amount.
        ebind (ebind (py_sum amounts) (\<lambda>s. py_truediv s (py_len amounts))) (\<lambda>avg_amount.
        ebind (py_max amounts) (\<lambda>max_transaction.
        ebind (py_min amounts) (\<lambda>min_transaction.
        Inr [''total_transactions'' \<mapsto> Scalar (py_len transactions),
             ''total_amount'' \<mapsto> Scalar total_amount,
             ''avg_amount'' \<mapsto> Scalar avg_amount,
             ''currency_totals'' \<mapsto> Totals currencies,
             ''merchant_counts'' \<mapsto> Counts merchants,
             ''max_transaction'' \<mapsto> Scalar max_transaction,
             ''min_transaction'' \<mapsto> Scalar min_transaction]))))))"

subsection \<open>Example records\<close>

definition reading :: "pyval \<Rightarrow> pyval \<Rightarrow> pydict" where
  "reading t h =
     [''sensor_id'' \<mapsto> VStr ''sensor_1'', ''temperature'' \<mapsto> t, ''humidity'' \<mapsto> h,
      ''pressure'' \<mapsto> VFloat 1013, ''timestamp'' \<mapsto> VStr ''2024-01-01T00:00:00'']"

definition transaction :: "pyval \<Rightarrow> pydict" where
  "transaction amount =
     [''transaction_id'' \<mapsto> VStr ''txn_10001'', ''user_id'' \<mapsto> VInt 7, ''amount'' \<mapsto> amount,
      ''currency'' \<mapsto> VStr ''USD'', ''timestamp'' \<mapsto> VStr ''2024-01-01T00:00:00'']"

definition user_event :: "pyval \<Rightarrow> pyval \<Rightarrow> pydict" where
  "user_event user_id event_type =
     [''user_id'' \<mapsto> user_id, ''event_type'' \<mapsto> event_type,
      ''timestamp'' \<mapsto> VStr ''2024-01-01T00:00:00'']"

text \<open>An integer too large for a double.\<close>

definition huge_int :: int where
  "huge_int = 2 ^ 1024"

text \<open>A user event that already carries a \<open>data_source\<close> field of its own.\<close>

definition tagged_event :: pydict where
  "tagged_event = (user_event (VInt 7) (VStr ''click''))(''data_source'' \<mapsto> VStr ''mobile_app'')"

subsection \<open>Notions used in the statements\<close>

text \<open>The three enrichers, at a clock reading.\<close>

definition enrichers :: "string \<Rightarrow> (addr \<Rightarrow> addr prog) set" where
  "enrichers now = {enrich_user_event now, enrich_sensor_data now, enrich_transaction now}"


text \<open>The field is absent or holds a number (a boolean, an integer or a float).\<close>

definition numeric_or_missing :: "pydict \<Rightarrow> string \<Rightarrow> bool" where
  "numeric_or_missing r k = (case r k of None \<Rightarrow> True | Some v \<Rightarrow> xnum_of v \<noteq> None)"

text \<open>The field is absent or holds a number that has a float.\<close>

definition converts_or_missing :: "pydict \<Rightarrow> string \<Rightarrow> bool" where
  "converts_or_missing r k =
     (case r k of None \<Rightarrow> True
      | Some v \<Rightarrow> (case to_double v of Inl _ \<Rightarrow> False | Inr _ \<Rightarrow> True))"

text \<open>
  The dictionary keys under which \<open>aggregate_user_events\<close> counts an event: its
  \<^verbatim>\<open>event.get('event_type', 'unknown')\<close> and its \<^verbatim>\<open>event.get('user_id', 0)\<close>.
\<close>

definition event_type_of :: "pydict \<Rightarrow> pykey" where
  "event_type_of event = key_of (dict_get event ''event_type'' (VStr ''unknown''))"

definition user_id_of :: "pydict \<Rightarrow> pykey" where
  "user_id_of event = key_of (dict_get event ''user_id'' (VInt 0))"

text \<open>Events of the users 1, 1, 2 with the types a, a, b.\<close>

definition example_events :: "pydict list" where
  "example_events =
     [user_event (VInt 1) (VStr ''a''), user_event (VInt 1) (VStr ''a''),
      user_event (VInt 2) (VStr ''b'')]"

text \<open>Four events of the three users 1, 2, 3.\<close>

definition uneven_events :: "pydict list" where
  "uneven_events =
     [user_event (VInt 1) (VStr ''a''), user_event (VInt 2) (VStr ''a''),
      user_event (VInt 3) (VStr ''b''), user_event (VInt 1) (VStr ''b'')]"

section \<open>Properties\<close>

subsection \<open>Validation of sensor readings\<close>

lemma py_between_num:
  "py_between (VInt lo) x (VInt hi) = Inr True \<longleftrightarrow>
     (\<exists>t. num_of x = Some t \<and> of_int lo \<le> t \<and> t \<le> of_int hi)"
  by (cases x) (auto simp: py_between_def py_le_def ebind_def)

lemma py_between_cases:
  "py_between (VInt lo) x (VInt hi) = Inr True \<or> py_between (VInt lo) x (VInt hi) = Inr False
    \<or> py_between (VInt lo) x (VInt hi) = Inl TypeError"
  by (cases x) (auto simp: py_between_def py_le_def ebind_def)

text \<open>
  C1. \<open>validate_sensor_data\<close> returns \<^verbatim>\<open>True\<close> exactly when the five keys
  \<open>sensor_id\<close>, \<open>temperature\<close>, \<open>humidity\<close>, \<open>pressure\<close>, \<open>timestamp\<close> are present,
  the temperature is a number in \<open>[0, 50]\<close> and the humidity is a number in \<open>[0, 100]\<close>,
  both ends included; the value of the pressure is not looked at.
\<close>

theorem validate_sensor_data_iff:
  "validate_sensor_data r = Inr True \<longleftrightarrow>
     r ''sensor_id'' \<noteq> None \<and> r ''pressure'' \<noteq> None \<and> r ''timestamp'' \<noteq> None \<and>
     (\<exists>v t. r ''temperature'' = Some v \<and> num_of v = Some t \<and> 0 \<le> t \<and> t \<le> 50) \<and>
     (\<exists>v u. r ''humidity'' = Some v \<and> num_of v = Some u \<and> 0 \<le> u \<and> u \<le> 100)"
proof (cases "all_present r
    [''sensor_id'', ''temperature'', ''humidity'', ''pressure'', ''timestamp'']")
  case False
  then show ?thesis
    by (auto simp: validate_sensor_data_def all_present_def)
next
  case True
  then obtain vt vh where vt: "r ''temperature'' = Some vt" and vh: "r ''humidity'' = Some vh"
    and rest: "r ''sensor_id'' \<noteq> None" "r ''pressure'' \<noteq> None" "r ''timestamp'' \<noteq> None"
    by (auto simp: all_present_def)
  have "validate_sensor_data r = Inr True \<longleftrightarrow>
      py_between (VInt 0) vt (VInt 50) = Inr True \<and> py_between (VInt 0) vh (VInt 100) = Inr True"
    using True vt vh py_between_cases [of 0 vt 50] py_between_cases [of 0 vh 100]
    by (auto simp: validate_sensor_data_def getitem_def ebind_def)
  then show ?thesis
    using vt vh rest by (simp add: py_between_num)
qed

text \<open>The boundary: a temperature of 50 is valid, one of 50.1 is not.\<close>

theorem validate_sensor_data_boundary:
  "validate_sensor_data (reading (VInt 50) (VInt 60)) = Inr True \<and>
   validate_sensor_data (reading (VFloat (501 / 10)) (VInt 60)) \<noteq> Inr True"
  using validate_sensor_data_iff [of "reading (VInt 50) (VInt 60)"]
    validate_sensor_data_iff [of "reading (VFloat (501 / 10)) (VInt 60)"]
  by (simp add: reading_def)

subsection \<open>Aggregation of an empty batch\<close>

text \<open>
  C7. Each of \<open>aggregate_user_events\<close>, \<open>aggregate_sensor_data\<close> and
  \<open>aggregate_transactions\<close> returns the empty mapping on the empty list, and raises
  nothing.
\<close>

theorem aggregate_empty:
  "aggregate_user_events [] = Inr Map.empty \<and>
   aggregate_sensor_data [] = Inr Map.empty \<and>
   aggregate_transactions [] = Inr Map.empty"
  by (simp add: aggregate_user_events_def aggregate_sensor_data_def aggregate_transactions_def)

subsection \<open>Running the statements of an enricher\<close>

text \<open>
  Every enricher first copies its argument, so from its second statement on the store is
  the old store followed by the copy, which is the only object written.
\<close>

lemma copy_dict_run: "copy_dict a h = (h @ [h ! a], Inr (length h))"
  by (simp add: copy_dict_def)

lemma setitem_new: "setitem (length h) k v (h @ [d]) = (h @ [d(k \<mapsto> v)], Inr ())"
  by (simp add: setitem_def)

lemma get_old:
  "a < length h \<Longrightarrow> get a k dflt (h @ [d]) = (h @ [d], Inr (dict_get (h ! a) k dflt))"
  by (simp add: get_def nth_append)

lemma lift_run: "lift r h = (h, r)"
  by (simp add: lift_def)

lemma ret_run: "ret x h = (h, Inr x)"
  by (simp add: ret_def)

lemma hbind_run:
  "hbind m f h = (case m h of (h', Inl e) \<Rightarrow> (h', Inl e) | (h', Inr x) \<Rightarrow> f x h')"
  by (simp add: hbind_def)

lemmas run = hbind_run copy_dict_run setitem_new get_old lift_run ret_run

lemma xnum_of_num: "num_of a = Some x \<Longrightarrow> xnum_of a = Some (Fin x)"
  by (cases a) auto

lemma py_lt_num: "num_of a = Some x \<Longrightarrow> py_lt a (VInt n) = Inr (x < of_int n)"
  by (simp add: py_lt_def xnum_of_num)

lemma py_gt_num: "num_of a = Some x \<Longrightarrow> py_gt a (VInt n) = Inr (of_int n < x)"
  by (simp add: py_gt_def py_lt_def xnum_of_num)

lemma py_le_num: "num_of a = Some x \<Longrightarrow> py_le a (VInt n) = Inr (x \<le> of_int n)"
  by (simp add: py_le_def xnum_of_num)

lemma enrich_user_event_shape:
  assumes "data < length h"
  shows "\<exists>d. fst (enrich_user_event now data h) = h @ [d] \<and>
     (\<forall>a. snd (enrich_user_event now data h) = Inr a \<longrightarrow> a = length h \<and>
        (\<exists>seg. d = (h ! data)(''processed_at'' \<mapsto> VStr now,
            ''data_source'' \<mapsto> VStr ''kafka_stream'', ''user_segment'' \<mapsto> VStr seg)))"
  using assms unfolding enrich_user_event_def
  by (auto simp: run split: sum.splits)

lemma enrich_sensor_data_shape:
  assumes "data < length h"
  shows "\<exists>d. fst (enrich_sensor_data now data h) = h @ [d] \<and>
     (\<forall>a. snd (enrich_sensor_data now data h) = Inr a \<longrightarrow> a = length h \<and>
        (\<exists>hi ta ha. d = (h ! data)(''processed_at'' \<mapsto> VStr now,
            ''data_source'' \<mapsto> VStr ''kafka_stream'', ''heat_index'' \<mapsto> hi,
            ''temperature_alert'' \<mapsto> VBool ta, ''humidity_alert'' \<mapsto> VBool ha)))"
  using assms unfolding enrich_sensor_data_def
  by (auto simp: run split: sum.splits)

lemma enrich_transaction_shape:
  assumes "data < length h"
  shows "\<exists>d. fst (enrich_transaction now data h) = h @ [d] \<and>
     (\<forall>a. snd (enrich_transaction now data h) = Inr a \<longrightarrow> a = length h \<and>
        (\<exists>cat risk. d = (h ! data)(''processed_at'' \<mapsto> VStr now,
            ''data_source'' \<mapsto> VStr ''kafka_stream'', ''transaction_category'' \<mapsto> VStr cat,
            ''fraud_risk'' \<mapsto> VStr risk)))"
  using assms unfolding enrich_transaction_def
  by (auto simp: run split: sum.splits)

subsection \<open>Derived fields of a transaction\<close>

text \<open>
  C3. For a transaction whose amount (0 when the key is missing) is a number \<open>x\<close>,
  \<open>enrich_transaction\<close> returns a record with \<open>transaction_category\<close> \<open>small\<close> if
  \<open>x < 50\<close>, else \<open>medium\<close> if \<open>x < 200\<close>, else \<open>large\<close>, and with \<open>fraud_risk\<close>
  \<open>high\<close> if \<open>x > 1000\<close>, else \<open>medium\<close> if \<open>x > 500\<close>, else \<open>low\<close>: the tests are
  made top-down and the first that holds decides.
\<close>

theorem enrich_transaction_buckets:
  assumes "data < length h" and "num_of (dict_get (h ! data) ''amount'' (VInt 0)) = Some x"
  shows "\<exists>h'. enrich_transaction now data h = (h', Inr (length h)) \<and>
     (h' ! length h) ''transaction_category'' =
        Some (VStr (if x < 50 then ''small'' else if x < 200 then ''medium'' else ''large'')) \<and>
     (h' ! length h) ''fraud_risk'' =
        Some (VStr (if x > 1000 then ''high'' else if x > 500 then ''medium'' else ''low''))"
  using assms unfolding enrich_transaction_def
  by (simp add: run py_lt_num py_gt_num)

text \<open>An amount of 49.99 is \<open>small\<close>, an amount of 1500 is of \<open>high\<close> risk.\<close>

theorem enrich_transaction_buckets_witness:
  "(fst (enrich_transaction ''t'' 0 [transaction (VFloat (4999 / 100))]) ! 1)
      ''transaction_category'' = Some (VStr ''small'') \<and>
   (fst (enrich_transaction ''t'' 0 [transaction (VInt 1500)]) ! 1) ''fraud_risk''
      = Some (VStr ''high'')"
  using enrich_transaction_buckets [of 0 "[transaction (VFloat (4999 / 100))]" "4999 / 100" "''t''"]
    enrich_transaction_buckets [of 0 "[transaction (VInt 1500)]" 1500 "''t''"]
  by (auto simp: transaction_def dict_get_def)

subsection \<open>Rounding to a double\<close>

text \<open>A number of \<open>2 ^ 1024\<close> or more rounds to infinity; one below \<open>2 ^ 1023\<close> does not.\<close>

lemma round_double_overflow:
  assumes "2 ^ n \<le> x" and "1024 \<le> n"
  shows "round_double x = PosInf"
proof -
  have "(1::rat) \<le> 2 ^ n" by simp
  then have pos: "0 < x" "1 \<le> x"
    using assms(1) by linarith+
  have "(2::int) ^ n \<le> \<lfloor>x\<rfloor>"
    using assms(1) by (simp add: le_floor_iff)
  moreover have "\<lfloor>x\<rfloor> < 2 ^ nat (bitlen \<lfloor>x\<rfloor>)"
    using bitlen_bounds [of "\<lfloor>x\<rfloor>"] pos by simp
  ultimately have "(2::int) ^ n < 2 ^ nat (bitlen \<lfloor>x\<rfloor>)"
    by linarith
  then have "n < nat (bitlen \<lfloor>x\<rfloor>)"
    using power_less_imp_less_exp [of "2::int" n "nat (bitlen \<lfloor>x\<rfloor>)"] by simp
  then have "971 < max (floor_log2 \<bar>x\<bar> - 52) (- 1074)"
    using pos assms(2) by (simp add: floor_log2_def)
  then show ?thesis
    using pos by (auto simp: round_double_def Let_def)
qed

lemma round_double_finite:
  assumes "1 \<le> x" and "x < 2 ^ n" and "n \<le> 1023"
  shows "\<exists>r. round_double x = Fin r"
proof -
  have pos: "0 < x" using assms by simp
  have fl: "1 \<le> \<lfloor>x\<rfloor>" using assms by simp
  have "\<lfloor>x\<rfloor> < 2 ^ n"
    using assms(2) by (simp add: floor_less_iff)
  moreover have "2 ^ nat (bitlen \<lfloor>x\<rfloor> - 1) \<le> \<lfloor>x\<rfloor>"
    using bitlen_bounds [of "\<lfloor>x\<rfloor>"] fl by simp
  ultimately have "(2::int) ^ nat (bitlen \<lfloor>x\<rfloor> - 1) < 2 ^ n"
    by linarith
  then have "nat (bitlen \<lfloor>x\<rfloor> - 1) < n"
    using power_less_imp_less_exp [of "2::int" "nat (bitlen \<lfloor>x\<rfloor> - 1)" n] by simp
  then have "max (floor_log2 \<bar>x\<bar> - 52) (- 1074) < 971"
    using assms pos by (simp add: floor_log2_def)
  then show ?thesis
    using pos by (auto simp: round_double_def Let_def)
qed

lemma huge_int_gt: "n < 2 ^ 1024 \<Longrightarrow> n < huge_int"
  by (simp add: huge_int_def)

lemma round_double_huge: "round_double (of_int huge_int) = PosInf"
  by (rule round_double_overflow [of 1024]) (simp_all add: huge_int_def)

lemma round_double_examples:
  "round_double 10 = Fin 10" "round_double 20 = Fin 20" "round_double 30 = Fin 30"
  "round_double 50 = Fin 50" "round_double 25 = Fin 25" "round_double 55 = Fin 55"
  "round_double (3 / 2) = Fin (3 / 2)"
  "round_double (4 / 3) = Fin (6004799503160661 / 4503599627370496)"
  by code_simp+

subsection \<open>Derived fields of a sensor reading\<close>

lemma val_of_simps [simp]:
  "is_intlike (val_of z) = None" "xnum_of (val_of z) = Some z" "to_double (val_of z) = Inr z"
  by (cases z; simp)+

lemma to_double_number: "to_double v = Inr x \<Longrightarrow> \<exists>y. xnum_of v = Some y"
  by (cases v) auto

lemma heat_index_cond:
  "xnum_of T = Some tx \<Longrightarrow> xnum_of H = Some ux \<Longrightarrow>
     py_and (py_gt T (VInt 27)) (py_gt H (VInt 40)) = Inr (x_lt (Fin 27) tx \<and> x_lt (Fin 40) ux)"
  by (simp add: py_and_def ebind_def py_gt_def py_lt_def)

lemma alert_cond:
  "xnum_of V = Some x \<Longrightarrow>
     py_or (py_gt V (VInt hi)) (py_lt V (VInt lo))
       = Inr (x_lt (Fin (of_int hi)) x \<or> x_lt x (Fin (of_int lo)))"
  by (simp add: py_or_def ebind_def py_gt_def py_lt_def)

lemma heat_index_value:
  assumes "to_double T = Inr t'" and "to_double H = Inr u'"
  shows "ebind (py_float_mul (1 / 2) H) (py_add T)
           = Inr (val_of (fl_add t' (fl_mul (Fin (1 / 2)) u')))"
proof -
  obtain tx ux where "xnum_of T = Some tx" "xnum_of H = Some ux"
    using assms to_double_number by blast
  then show ?thesis
    using assms by (simp add: py_float_mul_def py_add_def ebind_def split: option.splits)
qed

lemma heat_index_raises:
  assumes "to_double T = Inl e" and "xnum_of T = Some tx" and "to_double H = Inr u'"
  shows "ebind (py_float_mul (1 / 2) H) (py_add T) = Inl e"
proof -
  obtain ux where "xnum_of H = Some ux"
    using assms to_double_number by blast
  then show ?thesis
    using assms by (simp add: py_float_mul_def py_add_def ebind_def split: option.splits)
qed

lemma enrich_sensor_data_raises:
  assumes "data < length h"
    and "xnum_of (dict_get (h ! data) ''temperature'' (VInt 0)) = Some t"
    and "xnum_of (dict_get (h ! data) ''humidity'' (VInt 0)) = Some u"
    and "x_lt (Fin 27) t" and "x_lt (Fin 40) u"
    and "to_double (dict_get (h ! data) ''temperature'' (VInt 0)) = Inl e"
    and "to_double (dict_get (h ! data) ''humidity'' (VInt 0)) = Inr u'"
  shows "snd (enrich_sensor_data now data h) = Inl e"
  using assms(1,4,5) unfolding enrich_sensor_data_def
  by (simp add: run heat_index_cond [OF assms(2,3)] heat_index_raises [OF assms(6,2,7)])

text \<open>
  A reading whose temperature is the integer \<open>2 ^ 1024\<close>, with a humidity of 50:
  \<^verbatim>\<open>temperature + 0.5 * humidity\<close> converts the temperature to a float and raises
  \<^verbatim>\<open>OverflowError\<close>, so no record is returned.
\<close>

theorem enrich_sensor_data_overflow_counterexample:
  "snd (enrich_sensor_data ''t'' 0 [reading (VInt huge_int) (VInt 50)]) = Inl OverflowError"
  by (rule enrich_sensor_data_raises [where t = "Fin (of_int huge_int)" and u = "Fin 50"
        and u' = "Fin 50"])
    (simp_all add: reading_def dict_get_def round_double_huge round_double_examples huge_int_gt)

text \<open>
  C4, amended. For a sensor reading whose temperature and humidity (0 when the key is
  missing) are numbers \<open>t\<close> and \<open>u\<close> that have the floats \<open>t'\<close> and \<open>u'\<close>,
  \<open>enrich_sensor_data\<close> returns a record whose \<open>heat_index\<close> is the float
  \<^verbatim>\<open>temperature + 0.5 * humidity\<close>, the product and the sum each rounded to the nearest
  double, exactly when \<open>t > 27\<close> and \<open>u > 40\<close> and is the temperature itself
  otherwise, whose \<open>temperature_alert\<close> is \<open>t > 35 \<or> t < 5\<close> and whose
  \<open>humidity_alert\<close> is \<open>u > 90 \<or> u < 10\<close>. The comparisons are exact.
\<close>

theorem enrich_sensor_data_fields:
  assumes "data < length h"
    and "xnum_of (dict_get (h ! data) ''temperature'' (VInt 0)) = Some t"
    and "xnum_of (dict_get (h ! data) ''humidity'' (VInt 0)) = Some u"
    and "to_double (dict_get (h ! data) ''temperature'' (VInt 0)) = Inr t'"
    and "to_double (dict_get (h ! data) ''humidity'' (VInt 0)) = Inr u'"
  shows "\<exists>h'. enrich_sensor_data now data h = (h', Inr (length h)) \<and>
     (h' ! length h) ''heat_index'' =
        Some (if x_lt (Fin 27) t \<and> x_lt (Fin 40) u
              then val_of (fl_add t' (fl_mul (Fin (1 / 2)) u'))
              else dict_get (h ! data) ''temperature'' (VInt 0)) \<and>
     (h' ! length h) ''temperature_alert'' = Some (VBool (x_lt (Fin 35) t \<or> x_lt t (Fin 5))) \<and>
     (h' ! length h) ''humidity_alert'' = Some (VBool (x_lt (Fin 90) u \<or> x_lt u (Fin 10)))"
  using assms(1) unfolding enrich_sensor_data_def
  by (simp add: run heat_index_cond [OF assms(2,3)] heat_index_value [OF assms(4,5)]
      alert_cond [OF assms(2), of 35 5, simplified] alert_cond [OF assms(3), of 90 10, simplified])

text \<open>
  The floats 27.1 and 40.1 give 47.150000000000006, the double nearest to the sum of the
  two doubles.
\<close>

lemma heat_index_rounds:
  "fl_add (Fin (3813985934429389 / 140737488355328))
      (fl_mul (Fin (1 / 2)) (Fin (5643573283048653 / 140737488355328)))
    = Fin (1658943143988429 / 35184372088832)"
  by code_simp

theorem enrich_sensor_data_fields_witness:
  "(fst (enrich_sensor_data ''t'' 0 [reading (VInt 30) (VInt 50)]) ! 1) ''heat_index''
      = Some (VFloat 55) \<and>
   (fst (enrich_sensor_data ''t'' 0 [reading (VInt 10) (VInt 20)]) ! 1) ''heat_index''
      = Some (VInt 10) \<and>
   (fst (enrich_sensor_data ''t'' 0
      [reading (VFloat (3813985934429389 / 140737488355328))
         (VFloat (5643573283048653 / 140737488355328))]) ! 1) ''heat_index''
      = Some (VFloat (1658943143988429 / 35184372088832))"
proof -
  have "(fst (enrich_sensor_data ''t'' 0
      [reading (VFloat (3813985934429389 / 140737488355328))
         (VFloat (5643573283048653 / 140737488355328))]) ! 1) ''heat_index''
      = Some (VFloat (1658943143988429 / 35184372088832))"
    using enrich_sensor_data_fields [of 0
      "[reading (VFloat (3813985934429389 / 140737488355328))
         (VFloat (5643573283048653 / 140737488355328))]"
      "Fin (3813985934429389 / 140737488355328)" "Fin (5643573283048653 / 140737488355328)"
      "Fin (3813985934429389 / 140737488355328)" "Fin (5643573283048653 / 140737488355328)"
      "''t''"]
    by (auto simp: reading_def dict_get_def heat_index_rounds simp del: fl_add.simps fl_mul.simps)
  then show ?thesis
    using enrich_sensor_data_fields [of 0 "[reading (VInt 30) (VInt 50)]" "Fin 30" "Fin 50"
      "Fin 30" "Fin 50" "''t''"]
    enrich_sensor_data_fields [of 0 "[reading (VInt 10) (VInt 20)]" "Fin 10" "Fin 20"
      "Fin 10" "Fin 20" "''t''"]
    by (auto simp: reading_def dict_get_def round_double_examples)
qed

subsection \<open>Concrete runs\<close>

lemmas eval_defs = hbind_def copy_dict_def setitem_def get_def lift_def ret_def dict_get_def
  py_and_def py_or_def py_gt_def py_lt_def py_le_def ebind_def

lemma tagged_example_returns:
  "snd (enrich_user_event now 0 [tagged_event]) = Inr 1"
  by (simp add: enrich_user_event_def eval_defs tagged_event_def user_event_def)

subsection \<open>Enrichment leaves its argument alone\<close>

text \<open>
  C5. No enricher mutates its argument: after the call, whether it returned or raised,
  the input object holds what it held before, as does every other object that existed;
  the returned record is a newly allocated object, distinct from the input.
\<close>

theorem enrich_input_unchanged:
  assumes "data < length h" and "enrich \<in> enrichers now"
  shows "fst (enrich data h) ! data = h ! data \<and>
         take (length h) (fst (enrich data h)) = h \<and>
         (\<forall>enriched. snd (enrich data h) = Inr enriched \<longrightarrow>
            enriched \<noteq> data \<and> length h \<le> enriched \<and> enriched < length (fst (enrich data h)))"
proof -
  have "\<exists>d. fst (enrich data h) = h @ [d] \<and>
      (\<forall>a. snd (enrich data h) = Inr a \<longrightarrow> a = length h)"
    using assms enrich_user_event_shape [of data h now] enrich_sensor_data_shape [of data h now]
      enrich_transaction_shape [of data h now]
    unfolding enrichers_def by blast
  then show ?thesis
    using assms(1) by (auto simp: nth_append)
qed

theorem enrich_input_unchanged_witness:
  "fst (enrich_sensor_data ''t'' 0 [reading (VInt 30) (VInt 50)]) ! 0 = reading (VInt 30) (VInt 50)
   \<and> snd (enrich_sensor_data ''t'' 0 [reading (VInt 30) (VInt 50)]) = Inr 1"
proof -
  have "snd (enrich_sensor_data ''t'' 0 [reading (VInt 30) (VInt 50)]) = Inr 1"
    unfolding enrich_sensor_data_def
    by (simp add: hbind_def copy_dict_def setitem_def get_def lift_def ret_def reading_def
        dict_get_def py_and_def py_or_def py_gt_def py_lt_def ebind_def py_float_mul_def
        py_add_def round_double_examples)
  then show ?thesis
    using enrich_input_unchanged [of 0 "[reading (VInt 30) (VInt 50)]"
        "enrich_sensor_data ''t''" "''t''"]
    by (simp add: enrichers_def)
qed

subsection \<open>Fields kept by enrichment\<close>

text \<open>
  Assignment to a key that the input already has replaces its value: a user event that
  arrives with a \<open>data_source\<close> of its own leaves with \<open>kafka_stream\<close>.
\<close>

theorem enrich_overwrites_counterexample:
  "snd (enrich_user_event ''t'' 0 [tagged_event]) = Inr 1 \<and>
   tagged_event ''data_source'' = Some (VStr ''mobile_app'') \<and>
   (fst (enrich_user_event ''t'' 0 [tagged_event]) ! 1) ''data_source''
     = Some (VStr ''kafka_stream'')"
  by (simp add: enrich_user_event_def eval_defs tagged_event_def user_event_def)

text \<open>
  C6, amended. The record returned by an enricher binds every key of the input, other
  than the names of the fields that this enricher derives, to the value it had in the
  input; its keys are those of the input together with the derived fields, which are
  (over)written.
\<close>

theorem enrich_preserves_fields:
  assumes "data < length h"
  shows
   "(\<forall>a. snd (enrich_user_event now data h) = Inr a \<longrightarrow>
       (\<forall>k. k \<notin> {''processed_at'', ''data_source'', ''user_segment''} \<longrightarrow>
          (fst (enrich_user_event now data h) ! a) k = (h ! data) k) \<and>
       dom (fst (enrich_user_event now data h) ! a) =
          dom (h ! data) \<union> {''processed_at'', ''data_source'', ''user_segment''}) \<and>
    (\<forall>a. snd (enrich_sensor_data now data h) = Inr a \<longrightarrow>
       (\<forall>k. k \<notin> {''processed_at'', ''data_source'', ''heat_index'', ''temperature_alert'',
                  ''humidity_alert''} \<longrightarrow>
          (fst (enrich_sensor_data now data h) ! a) k = (h ! data) k) \<and>
       dom (fst (enrich_sensor_data now data h) ! a) =
          dom (h ! data) \<union> {''processed_at'', ''data_source'', ''heat_index'',
            ''temperature_alert'', ''humidity_alert''}) \<and>
    (\<forall>a. snd (enrich_transaction now data h) = Inr a \<longrightarrow>
       (\<forall>k. k \<notin> {''processed_at'', ''data_source'', ''transaction_category'', ''fraud_risk''} \<longrightarrow>
          (fst (enrich_transaction now data h) ! a) k = (h ! data) k) \<and>
       dom (fst (enrich_transaction now data h) ! a) =
          dom (h ! data) \<union> {''processed_at'', ''data_source'', ''transaction_category'',
            ''fraud_risk''})"
proof (intro conjI)
  show "\<forall>a. snd (enrich_user_event now data h) = Inr a \<longrightarrow>
       (\<forall>k. k \<notin> {''processed_at'', ''data_source'', ''user_segment''} \<longrightarrow>
          (fst (enrich_user_event now data h) ! a) k = (h ! data) k) \<and>
       dom (fst (enrich_user_event now data h) ! a) =
          dom (h ! data) \<union> {''processed_at'', ''data_source'', ''user_segment''}"
    using enrich_user_event_shape [OF assms, of now] by auto
  show "\<forall>a. snd (enrich_sensor_data now data h) = Inr a \<longrightarrow>
       (\<forall>k. k \<notin> {''processed_at'', ''data_source'', ''heat_index'', ''temperature_alert'',
                  ''humidity_alert''} \<longrightarrow>
          (fst (enrich_sensor_data now data h) ! a) k = (h ! data) k) \<and>
       dom (fst (enrich_sensor_data now data h) ! a) =
          dom (h ! data) \<union> {''processed_at'', ''data_source'', ''heat_index'',
            ''temperature_alert'', ''humidity_alert''}"
    using enrich_sensor_data_shape [OF assms, of now] by auto
  show "\<forall>a. snd (enrich_transaction now data h) = Inr a \<longrightarrow>
       (\<forall>k. k \<notin> {''processed_at'', ''data_source'', ''transaction_category'', ''fraud_risk''} \<longrightarrow>
          (fst (enrich_transaction now data h) ! a) k = (h ! data) k) \<and>
       dom (fst (enrich_transaction now data h) ! a) =
          dom (h ! data) \<union> {''processed_at'', ''data_source'', ''transaction_category'',
            ''fraud_risk''}"
    using enrich_transaction_shape [OF assms, of now] by auto
qed

theorem enrich_preserves_fields_witness:
  "(fst (enrich_user_event ''t'' 0 [tagged_event]) ! 1) ''user_id'' = Some (VInt 7) \<and>
   dom (fst (enrich_user_event ''t'' 0 [tagged_event]) ! 1) =
     dom tagged_event \<union> {''processed_at'', ''data_source'', ''user_segment''}"
  using enrich_preserves_fields [of 0 "[tagged_event]" "''t''"] tagged_example_returns [of "''t''"]
  by (simp add: tagged_event_def user_event_def)

subsection \<open>Enrichment preserves validity\<close>

lemma validate_user_event_upd:
  "k \<notin> {''user_id'', ''event_type'', ''timestamp''} \<Longrightarrow>
     validate_user_event (d(k \<mapsto> v)) = validate_user_event d"
  by (auto simp: validate_user_event_def all_present_def)

lemma validate_sensor_data_upd:
  assumes "k \<notin> {''sensor_id'', ''temperature'', ''humidity'', ''pressure'', ''timestamp''}"
  shows "validate_sensor_data (d(k \<mapsto> v)) = validate_sensor_data d"
proof -
  have "(d(k \<mapsto> v)) ''sensor_id'' = d ''sensor_id''"
    "(d(k \<mapsto> v)) ''temperature'' = d ''temperature''"
    "(d(k \<mapsto> v)) ''humidity'' = d ''humidity''"
    "(d(k \<mapsto> v)) ''pressure'' = d ''pressure''"
    "(d(k \<mapsto> v)) ''timestamp'' = d ''timestamp''"
    using assms by auto
  then show ?thesis
    by (simp add: validate_sensor_data_def all_present_def getitem_def del: fun_upd_apply
        cong: if_cong)
qed

lemma validate_transaction_upd:
  assumes "k \<notin> {''transaction_id'', ''user_id'', ''amount'', ''currency'', ''timestamp''}"
  shows "validate_transaction (d(k \<mapsto> v)) = validate_transaction d"
proof -
  have "(d(k \<mapsto> v)) ''transaction_id'' = d ''transaction_id''"
    "(d(k \<mapsto> v)) ''user_id'' = d ''user_id''"
    "(d(k \<mapsto> v)) ''amount'' = d ''amount''"
    "(d(k \<mapsto> v)) ''currency'' = d ''currency''"
    "(d(k \<mapsto> v)) ''timestamp'' = d ''timestamp''"
    using assms by auto
  then show ?thesis
    by (simp add: validate_transaction_def all_present_def getitem_def del: fun_upd_apply
        cong: if_cong)
qed

lemma numeric_dict_get:
  "numeric_or_missing r k \<Longrightarrow> \<exists>x. xnum_of (dict_get r k (VInt 0)) = Some x"
  by (auto simp: numeric_or_missing_def dict_get_def split: option.splits)

lemma converts_dict_get:
  "converts_or_missing r k \<Longrightarrow> \<exists>x. to_double (dict_get r k (VInt 0)) = Inr x"
  by (auto simp: converts_or_missing_def dict_get_def round_double_def
      split: option.splits sum.splits)

lemma py_le_x: "xnum_of a = Some x \<Longrightarrow> py_le a (VInt n) = Inr (x_le x (Fin (of_int n)))"
  by (simp add: py_le_def)

lemma py_lt_x: "xnum_of a = Some x \<Longrightarrow> py_lt a (VInt n) = Inr (x_lt x (Fin (of_int n)))"
  by (simp add: py_lt_def)

lemma py_gt_x: "xnum_of a = Some x \<Longrightarrow> py_gt a (VInt n) = Inr (x_lt (Fin (of_int n)) x)"
  by (simp add: py_gt_def py_lt_def)

lemma enrich_user_event_returns:
  assumes "data < length h" and "xnum_of (dict_get (h ! data) ''user_id'' (VInt 0)) = Some x"
  shows "snd (enrich_user_event now data h) = Inr (length h)"
  using assms unfolding enrich_user_event_def
  by (simp add: run py_le_x)

lemma enrich_transaction_returns:
  assumes "data < length h" and "xnum_of (dict_get (h ! data) ''amount'' (VInt 0)) = Some x"
  shows "snd (enrich_transaction now data h) = Inr (length h)"
  using assms unfolding enrich_transaction_def
  by (simp add: run py_lt_x py_gt_x)

lemma enrich_sensor_data_returns:
  assumes "data < length h"
    and "to_double (dict_get (h ! data) ''temperature'' (VInt 0)) = Inr t'"
    and "to_double (dict_get (h ! data) ''humidity'' (VInt 0)) = Inr u'"
  shows "snd (enrich_sensor_data now data h) = Inr (length h)"
proof -
  obtain t u where x: "xnum_of (dict_get (h ! data) ''temperature'' (VInt 0)) = Some t"
    "xnum_of (dict_get (h ! data) ''humidity'' (VInt 0)) = Some u"
    using assms(2,3) to_double_number by blast
  show ?thesis
    using assms(1) unfolding enrich_sensor_data_def
    by (simp add: run heat_index_cond [OF x] heat_index_value [OF assms(2,3)]
        alert_cond [OF x(1)] alert_cond [OF x(2)])
qed

text \<open>
  A user event whose \<open>user_id\<close> is the string \<^verbatim>\<open>"u1"\<close> has its three keys, so the
  validator accepts it; the enricher compares \<^verbatim>\<open>user_id <= 100\<close> and raises.
\<close>

theorem enrich_raises_on_valid_counterexample:
  "validate_user_event (user_event (VStr ''u1'') (VStr ''click'')) = Inr True \<and>
   snd (enrich_user_event ''t'' 0 [user_event (VStr ''u1'') (VStr ''click'')]) = Inl TypeError"
  by (simp add: validate_user_event_def all_present_def enrich_user_event_def eval_defs
      user_event_def)

text \<open>
  C10, amended. Whenever an enricher returns a record, the validator of the same kind
  gives on it the result it gives on the input: the required fields are kept, and no
  validator reads a derived field. The enricher returns on every record whose compared
  fields are numbers or absent (\<open>user_id\<close>; \<open>amount\<close>) and, for a sensor reading,
  whose \<open>temperature\<close> and \<open>humidity\<close> are numbers that have a float, or absent.
\<close>

theorem enrich_preserves_validity:
  assumes "data < length h"
  shows
   "(numeric_or_missing (h ! data) ''user_id'' \<longrightarrow>
       (\<exists>a. snd (enrich_user_event now data h) = Inr a)) \<and>
    (\<forall>a. snd (enrich_user_event now data h) = Inr a \<longrightarrow>
       validate_user_event (fst (enrich_user_event now data h) ! a)
         = validate_user_event (h ! data)) \<and>
    (converts_or_missing (h ! data) ''temperature'' \<and>
     converts_or_missing (h ! data) ''humidity'' \<longrightarrow>
       (\<exists>a. snd (enrich_sensor_data now data h) = Inr a)) \<and>
    (\<forall>a. snd (enrich_sensor_data now data h) = Inr a \<longrightarrow>
       validate_sensor_data (fst (enrich_sensor_data now data h) ! a)
         = validate_sensor_data (h ! data)) \<and>
    (numeric_or_missing (h ! data) ''amount'' \<longrightarrow>
       (\<exists>a. snd (enrich_transaction now data h) = Inr a)) \<and>
    (\<forall>a. snd (enrich_transaction now data h) = Inr a \<longrightarrow>
       validate_transaction (fst (enrich_transaction now data h) ! a)
         = validate_transaction (h ! data))"
proof (intro conjI impI)
  show "\<exists>a. snd (enrich_user_event now data h) = Inr a"
    if "numeric_or_missing (h ! data) ''user_id''"
    using numeric_dict_get [OF that] enrich_user_event_returns [OF assms] by blast
  show "\<exists>a. snd (enrich_sensor_data now data h) = Inr a"
    if "converts_or_missing (h ! data) ''temperature'' \<and>
        converts_or_missing (h ! data) ''humidity''"
    using that converts_dict_get [of "h ! data" "''temperature''"]
      converts_dict_get [of "h ! data" "''humidity''"] enrich_sensor_data_returns [OF assms]
    by blast
  show "\<exists>a. snd (enrich_transaction now data h) = Inr a"
    if "numeric_or_missing (h ! data) ''amount''"
    using numeric_dict_get [OF that] enrich_transaction_returns [OF assms] by blast
  show "\<forall>a. snd (enrich_user_event now data h) = Inr a \<longrightarrow>
       validate_user_event (fst (enrich_user_event now data h) ! a)
         = validate_user_event (h ! data)"
    using enrich_user_event_shape [OF assms, of now]
    by (auto simp: validate_user_event_upd)
  show "\<forall>a. snd (enrich_sensor_data now data h) = Inr a \<longrightarrow>
       validate_sensor_data (fst (enrich_sensor_data now data h) ! a)
         = validate_sensor_data (h ! data)"
    using enrich_sensor_data_shape [OF assms, of now]
    by (auto simp: validate_sensor_data_upd)
  show "\<forall>a. snd (enrich_transaction now data h) = Inr a \<longrightarrow>
       validate_transaction (fst (enrich_transaction now data h) ! a)
         = validate_transaction (h ! data)"
    using enrich_transaction_shape [OF assms, of now]
    by (auto simp: validate_transaction_upd)
qed

theorem enrich_preserves_validity_witness:
  "\<exists>a. snd (enrich_sensor_data ''t'' 0 [reading (VInt 30) (VInt 50)]) = Inr a \<and>
     validate_sensor_data (fst (enrich_sensor_data ''t'' 0 [reading (VInt 30) (VInt 50)]) ! a)
       = validate_sensor_data (reading (VInt 30) (VInt 50))"
proof -
  have "converts_or_missing (reading (VInt 30) (VInt 50)) ''temperature''"
    "converts_or_missing (reading (VInt 30) (VInt 50)) ''humidity''"
    by (simp_all add: converts_or_missing_def reading_def round_double_examples)
  then show ?thesis
    using enrich_preserves_validity [of 0 "[reading (VInt 30) (VInt 50)]" "''t''"]
    by auto
qed

subsection \<open>When the validators raise\<close>

text \<open>
  A transaction whose amount arrives as the string \<^verbatim>\<open>"12.50"\<close> has all its keys;
  the comparison \<^verbatim>\<open>data['amount'] <= 0\<close> then raises \<^verbatim>\<open>TypeError\<close>.
\<close>

theorem validate_raises_counterexample:
  "validate_transaction (transaction (VStr ''12.50'')) = Inl TypeError"
  by (simp add: validate_transaction_def transaction_def all_present_def getitem_def ebind_def
      py_le_def)

lemma py_le_result:
  "py_le a (VInt n) = (case xnum_of a of None \<Rightarrow> Inl TypeError
     | Some x \<Rightarrow> Inr (x_le x (Fin (of_int n))))"
  by (cases a) (auto simp: py_le_def)

lemma py_between_result:
  "py_between (VInt lo) a (VInt hi) = (case xnum_of a of None \<Rightarrow> Inl TypeError
     | Some x \<Rightarrow> Inr (x_le (Fin (of_int lo)) x \<and> x_le x (Fin (of_int hi))))"
  by (cases a) (auto simp: py_between_def py_le_def ebind_def)

lemma validate_sensor_data_raises:
  assumes "all_present r [''sensor_id'', ''temperature'', ''humidity'', ''pressure'', ''timestamp'']"
  shows "validate_sensor_data r = Inl e \<longleftrightarrow>
     e = TypeError \<and>
     (\<not> numeric_or_missing r ''temperature'' \<or>
      (\<exists>v t. r ''temperature'' = Some v \<and> num_of v = Some t \<and> 0 \<le> t \<and> t \<le> 50) \<and>
      \<not> numeric_or_missing r ''humidity'')"
proof -
  obtain vt vh where v: "r ''temperature'' = Some vt" "r ''humidity'' = Some vh"
    using assms by (auto simp: all_present_def)
  have range: "(\<exists>t. num_of vt = Some t \<and> 0 \<le> t \<and> t \<le> 50) \<longleftrightarrow>
      py_between (VInt 0) vt (VInt 50) = Inr True"
    using py_between_num [of 0 vt 50] by simp
  show ?thesis
    using assms v unfolding range [symmetric, simplified] validate_sensor_data_def
    apply (simp add: getitem_def ebind_def numeric_or_missing_def py_between_result
        split: option.splits)
    apply (cases vt; cases vh; auto)
    done
qed

lemma validate_transaction_raises:
  assumes "all_present r [''transaction_id'', ''user_id'', ''amount'', ''currency'', ''timestamp'']"
  shows "validate_transaction r = Inl e \<longleftrightarrow> e = TypeError \<and> \<not> numeric_or_missing r ''amount''"
proof -
  obtain va vc where v: "r ''amount'' = Some va" "r ''currency'' = Some vc"
    using assms by (auto simp: all_present_def)
  show ?thesis
    using assms v
    by (auto simp: validate_transaction_def getitem_def ebind_def numeric_or_missing_def
        py_le_result split: option.splits)
qed

lemma py_le_total: "xnum_of a \<noteq> None \<Longrightarrow> \<exists>b. py_le a (VInt n) = Inr b"
  by (auto simp: py_le_result)

lemma py_between_total:
  "xnum_of a \<noteq> None \<Longrightarrow> \<exists>b. py_between (VInt lo) a (VInt hi) = Inr b"
  by (auto simp: py_between_result)

text \<open>
  C2, amended. \<open>validate_user_event\<close> never raises. \<open>validate_sensor_data\<close> and
  \<open>validate_transaction\<close> return \<^verbatim>\<open>False\<close>, without raising, on a record that
  lacks a required key, and never raise on a record whose compared fields (temperature
  and humidity; amount) hold numbers. They raise nothing but \<^verbatim>\<open>TypeError\<close>, and that
  exactly on the records that have every required key and a value that is not a number
  in a field that is compared: for a transaction the amount; for a sensor reading the
  temperature, or the humidity when the temperature is within range.
\<close>

theorem validators_total:
  "validate_user_event r =
      Inr (r ''user_id'' \<noteq> None \<and> r ''event_type'' \<noteq> None \<and> r ''timestamp'' \<noteq> None) \<and>
   (\<not> all_present r [''sensor_id'', ''temperature'', ''humidity'', ''pressure'', ''timestamp'']
      \<longrightarrow> validate_sensor_data r = Inr False) \<and>
   (\<not> all_present r [''transaction_id'', ''user_id'', ''amount'', ''currency'', ''timestamp'']
      \<longrightarrow> validate_transaction r = Inr False) \<and>
   (numeric_or_missing r ''temperature'' \<and> numeric_or_missing r ''humidity''
      \<longrightarrow> (\<exists>b. validate_sensor_data r = Inr b)) \<and>
   (numeric_or_missing r ''amount'' \<longrightarrow> (\<exists>b. validate_transaction r = Inr b)) \<and>
   (\<forall>e. validate_sensor_data r = Inl e \<longleftrightarrow>
      e = TypeError \<and>
      all_present r [''sensor_id'', ''temperature'', ''humidity'', ''pressure'', ''timestamp''] \<and>
      (\<not> numeric_or_missing r ''temperature'' \<or>
       (\<exists>v t. r ''temperature'' = Some v \<and> num_of v = Some t \<and> 0 \<le> t \<and> t \<le> 50) \<and>
       \<not> numeric_or_missing r ''humidity'')) \<and>
   (\<forall>e. validate_transaction r = Inl e \<longleftrightarrow>
      e = TypeError \<and>
      all_present r [''transaction_id'', ''user_id'', ''amount'', ''currency'', ''timestamp''] \<and>
      \<not> numeric_or_missing r ''amount'')"
proof (intro conjI impI allI)
  fix e
  show "validate_sensor_data r = Inl e \<longleftrightarrow>
      e = TypeError \<and>
      all_present r [''sensor_id'', ''temperature'', ''humidity'', ''pressure'', ''timestamp''] \<and>
      (\<not> numeric_or_missing r ''temperature'' \<or>
       (\<exists>v t. r ''temperature'' = Some v \<and> num_of v = Some t \<and> 0 \<le> t \<and> t \<le> 50) \<and>
       \<not> numeric_or_missing r ''humidity'')"
  proof (cases "all_present r
      [''sensor_id'', ''temperature'', ''humidity'', ''pressure'', ''timestamp'']")
    case True
    then show ?thesis using validate_sensor_data_raises [OF True, of e] by simp
  next
    case False
    then show ?thesis by (simp add: validate_sensor_data_def)
  qed
  show "validate_transaction r = Inl e \<longleftrightarrow>
      e = TypeError \<and>
      all_present r [''transaction_id'', ''user_id'', ''amount'', ''currency'', ''timestamp''] \<and>
      \<not> numeric_or_missing r ''amount''"
  proof (cases "all_present r
      [''transaction_id'', ''user_id'', ''amount'', ''currency'', ''timestamp'']")
    case True
    then show ?thesis using validate_transaction_raises [OF True, of e] by simp
  next
    case False
    then show ?thesis by (simp add: validate_transaction_def)
  qed
next
  show "validate_user_event r =
      Inr (r ''user_id'' \<noteq> None \<and> r ''event_type'' \<noteq> None \<and> r ''timestamp'' \<noteq> None)"
    by (simp add: validate_user_event_def all_present_def)
  show "validate_sensor_data r = Inr False"
    if "\<not> all_present r [''sensor_id'', ''temperature'', ''humidity'', ''pressure'', ''timestamp'']"
    using that by (simp add: validate_sensor_data_def)
  show "validate_transaction r = Inr False"
    if "\<not> all_present r [''transaction_id'', ''user_id'', ''amount'', ''currency'', ''timestamp'']"
    using that by (simp add: validate_transaction_def)
  show "\<exists>b. validate_sensor_data r = Inr b"
    if "numeric_or_missing r ''temperature'' \<and> numeric_or_missing r ''humidity''"
  proof (cases "all_present r
      [''sensor_id'', ''temperature'', ''humidity'', ''pressure'', ''timestamp'']")
    case False
    then have "validate_sensor_data r = Inr False" by (simp add: validate_sensor_data_def)
    then show ?thesis by (rule exI)
  next
    case True
    then obtain vt vh where v: "r ''temperature'' = Some vt" "r ''humidity'' = Some vh"
      by (auto simp: all_present_def)
    with that have "xnum_of vt \<noteq> None" "xnum_of vh \<noteq> None"
      by (simp_all add: numeric_or_missing_def)
    then obtain bt bh where "py_between (VInt 0) vt (VInt 50) = Inr bt"
      "py_between (VInt 0) vh (VInt 100) = Inr bh"
      using py_between_total by blast
    then show ?thesis
      using True v
      by (cases bt; cases bh; simp add: validate_sensor_data_def getitem_def ebind_def; blast)
  qed
  show "\<exists>b. validate_transaction r = Inr b" if "numeric_or_missing r ''amount''"
  proof (cases "all_present r
      [''transaction_id'', ''user_id'', ''amount'', ''currency'', ''timestamp'']")
    case False
    then have "validate_transaction r = Inr False" by (simp add: validate_transaction_def)
    then show ?thesis by (rule exI)
  next
    case True
    then obtain va vc where v: "r ''amount'' = Some va" "r ''currency'' = Some vc"
      by (auto simp: all_present_def)
    with that have "xnum_of va \<noteq> None"
      by (simp add: numeric_or_missing_def)
    then obtain b where "py_le va (VInt 0) = Inr b"
      using py_le_total by blast
    then show ?thesis
      using True v
      by (cases b; simp add: validate_transaction_def getitem_def ebind_def; blast)
  qed
qed

theorem validators_total_witness:
  "(\<exists>b. validate_sensor_data (reading (VInt 20) (VInt 60)) = Inr b) \<and>
   (\<exists>b. validate_transaction (transaction (VInt 5)) = Inr b) \<and>
   validate_sensor_data Map.empty = Inr False \<and>
   validate_transaction Map.empty = Inr False"
  using validators_total [of "reading (VInt 20) (VInt 60)"] validators_total [of Map.empty]
    validators_total [of "transaction (VInt 5)"]
  by (simp add: numeric_or_missing_def reading_def transaction_def all_present_def)

subsection \<open>Determinism up to the clock\<close>







subsection \<open>Aggregation of user events\<close>

lemma map_of_store: "map_of (store d k v) = (map_of d)(key_of k \<mapsto> v)"
  by (simp add: store_def update_conv')

lemma distinct_store: "distinct (map fst d) \<Longrightarrow> distinct (map fst (store d k v))"
  by (simp add: store_def distinct_update)

lemma keys_store: "fst ` set (store d k v) = insert (key_of k) (fst ` set d)"
  by (simp add: store_def dom_update)

text \<open>
  The invariant of the loop: the keys of both dictionaries stay distinct,
  \<open>user_activity\<close> gains the user ids seen, and each count grows by the number of
  events of its type.
\<close>

lemma user_events_loop_inv:
  assumes "user_events_loop events et ua = (et', ua')"
    and "distinct (map fst et)" and "distinct (map fst ua)"
  shows "distinct (map fst et') \<and> distinct (map fst ua') \<and>
     fst ` set ua' = fst ` set ua \<union> user_id_of ` set events \<and>
     (\<forall>k. map_of et' k =
        (if k \<in> event_type_of ` set events
         then Some ((case map_of et k of None \<Rightarrow> 0 | Some c \<Rightarrow> c)
                + int (count_list (map event_type_of events) k))
         else map_of et k))"
  using assms
proof (induction events arbitrary: et ua)
  case Nil
  then show ?case by simp
next
  case (Cons event rest)
  let ?t = "dict_get event ''event_type'' (VStr ''unknown'')"
  let ?u = "dict_get event ''user_id'' (VInt 0)"
  let ?et = "store et ?t (lookup et ?t 0 + 1)"
  let ?ua1 = "if map_of ua (key_of ?u) = None then store ua ?u [] else ua"
  let ?ua = "store ?ua1 ?u (lookup ?ua1 ?u [] @ [?t])"
  have run: "user_events_loop rest ?et ?ua = (et', ua')"
    using Cons.prems(1) by (simp add: Let_def)
  have d1: "distinct (map fst ?et)" using Cons.prems(2) by (simp add: distinct_store)
  have d2: "distinct (map fst ?ua)" using Cons.prems(3) by (simp add: distinct_store)
  note IH = Cons.IH [OF run d1 d2]
  have keys: "fst ` set ?ua = insert (user_id_of event) (fst ` set ua)"
    by (auto simp: keys_store user_id_of_def)
  have cnt: "map_of ?et = (map_of et)(event_type_of event \<mapsto>
      (case map_of et (event_type_of event) of None \<Rightarrow> 0 | Some c \<Rightarrow> c) + 1)"
    by (simp add: map_of_store lookup_def event_type_of_def)
  show ?case
  proof (intro conjI allI)
    show "distinct (map fst et')" "distinct (map fst ua')" using IH by simp_all
    show "fst ` set ua' = fst ` set ua \<union> user_id_of ` set (event # rest)"
      using IH keys by auto
    fix k
    show "map_of et' k =
        (if k \<in> event_type_of ` set (event # rest)
         then Some ((case map_of et k of None \<Rightarrow> 0 | Some c \<Rightarrow> c)
                + int (count_list (map event_type_of (event # rest)) k))
         else map_of et k)"
      using IH cnt by (auto simp: count_list_0_iff split: option.splits)
  qed
qed

lemma py_truediv_lengths:
  assumes "1 \<le> m" and "m \<le> n" and "n < 2 ^ 63"
  shows "py_truediv (VInt (int n)) (VInt (int m))
           = Inr (val_of (round_double (of_nat n / of_nat m)))"
proof -
  have m: "(0::rat) < of_nat m" using assms(1) by simp
  have "(of_nat n :: rat) / of_nat m \<le> of_nat n"
    using assms(1) by (simp add: divide_le_eq mult_le_cancel_left1)
  moreover have "(of_nat n :: rat) < 2 ^ 63"
    using assms(3) by (metis of_nat_less_iff of_nat_numeral of_nat_power)
  ultimately have "(of_nat n :: rat) / of_nat m < 2 ^ 63" by linarith
  moreover have "(1::rat) \<le> of_nat n / of_nat m"
    using assms(1,2) m by (simp add: le_divide_eq)
  ultimately obtain r where "round_double (of_nat n / of_nat m) = Fin r"
    using round_double_finite [of "of_nat n / of_nat m" 63] by auto
  then show ?thesis
    using assms(1) by (simp add: py_truediv_def)
qed

text \<open>
  C8. On a non-empty list of events, \<open>aggregate_user_events\<close> returns the number of
  events as \<open>total_events\<close>, a dictionary that maps each event type occurring in the
  list, and no other key, to its number of occurrences as \<open>event_type_counts\<close>, the
  number of distinct user ids as \<open>active_users\<close>, and the number of events divided by
  the number of distinct user ids, as a float, as \<open>avg_events_per_user\<close>. Keys are
  distinct up to Python's \<^verbatim>\<open>==\<close>; a list has fewer than \<open>2 ^ 63\<close> items, and no
  event type or user id is NaN.
\<close>

theorem aggregate_user_events_summary:
  assumes "events \<noteq> []" and "length events < 2 ^ 63"
    and "KNaN \<notin> event_type_of ` set events" and "KNaN \<notin> user_id_of ` set events"
  shows "\<exists>counts.
     aggregate_user_events events =
       Inr [''total_events'' \<mapsto> Scalar (VInt (int (length events))),
            ''event_type_counts'' \<mapsto> Counts counts,
            ''active_users'' \<mapsto> Scalar (VInt (int (card (user_id_of ` set events)))),
            ''avg_events_per_user'' \<mapsto>
               Scalar (val_of (round_double
                 (of_nat (length events) / of_nat (card (user_id_of ` set events)))))]
     \<and> distinct (map fst counts)
     \<and> (\<forall>k. map_of counts k =
           (if k \<in> event_type_of ` set events
            then Some (int (count_list (map event_type_of events) k)) else None))"
proof -
  obtain et ua where run: "user_events_loop events [] [] = (et, ua)"
    by (cases "user_events_loop events [] []")
  from user_events_loop_inv [OF run]
  have inv: "distinct (map fst et)" "distinct (map fst ua)"
    "fst ` set ua = user_id_of ` set events"
    "\<And>k. map_of et k =
        (if k \<in> event_type_of ` set events
         then Some (int (count_list (map event_type_of events) k)) else None)"
    by simp_all
  have "card (fst ` set ua) = length ua"
    using inv(2) distinct_card [of "map fst ua"] by simp
  then have len: "length ua = card (user_id_of ` set events)"
    using inv(3) by simp
  have "user_id_of ` set events \<noteq> {}"
    using assms(1) by simp
  then have pos: "1 \<le> card (user_id_of ` set events)" "ua \<noteq> []"
    using len by (auto simp: Suc_le_eq card_gt_0_iff)
  have "card (user_id_of ` set events) \<le> card (set events)"
    by (simp add: card_image_le)
  also have "\<dots> \<le> length events"
    by (rule card_length)
  finally have le: "card (user_id_of ` set events) \<le> length events" .
  have "aggregate_user_events events =
       Inr [''total_events'' \<mapsto> Scalar (VInt (int (length events))),
            ''event_type_counts'' \<mapsto> Counts et,
            ''active_users'' \<mapsto> Scalar (VInt (int (card (user_id_of ` set events)))),
            ''avg_events_per_user'' \<mapsto>
               Scalar (val_of (round_double
                 (of_nat (length events) / of_nat (card (user_id_of ` set events)))))]"
    using assms(1) run pos(2) len py_truediv_lengths [OF pos(1) le assms(2)]
    by (simp add: aggregate_user_events_def py_len_def ebind_def)
  then show ?thesis
    using inv(1,4) by blast
qed

text \<open>
  The events of the users 1, 1, 2 give an average of 1.5; four events of three users give
  1.3333333333333333, the double nearest to \<open>4 / 3\<close>.
\<close>

theorem aggregate_user_events_summary_witness:
  "(\<exists>counts.
     aggregate_user_events example_events =
       Inr [''total_events'' \<mapsto> Scalar (VInt 3),
            ''event_type_counts'' \<mapsto> Counts counts,
            ''active_users'' \<mapsto> Scalar (VInt 2),
            ''avg_events_per_user'' \<mapsto> Scalar (VFloat (3 / 2))]
     \<and> map_of counts (KStr ''a'') = Some 2 \<and> map_of counts (KStr ''b'') = Some 1
     \<and> fst ` set counts = {KStr ''a'', KStr ''b''}) \<and>
   (\<exists>counts.
     aggregate_user_events uneven_events =
       Inr [''total_events'' \<mapsto> Scalar (VInt 4),
            ''event_type_counts'' \<mapsto> Counts counts,
            ''active_users'' \<mapsto> Scalar (VInt 3),
            ''avg_events_per_user'' \<mapsto>
               Scalar (VFloat (6004799503160661 / 4503599627370496))])"
proof (rule conjI)
  have ne: "example_events \<noteq> []"
    by (simp add: example_events_def)
  have ids: "user_id_of ` set example_events = {KNum 1, KNum 2}"
    by (auto simp: example_events_def user_event_def user_id_of_def dict_get_def)
  have tys: "map event_type_of example_events = [KStr ''a'', KStr ''a'', KStr ''b'']"
    by (simp add: example_events_def user_event_def event_type_of_def dict_get_def)
  have len: "length example_events = 3"
    by (simp add: example_events_def)
  have set_tys: "event_type_of ` set example_events = {KStr ''a'', KStr ''b''}"
    using tys by (metis (no_types) list.set_map list.simps(15) insert_absorb2 empty_set)
  have small: "length example_events < 2 ^ 63"
    by (simp add: len)
  have nonan: "KNaN \<notin> event_type_of ` set example_events"
    "KNaN \<notin> user_id_of ` set example_events"
    by (simp_all add: ids set_tys)
  from aggregate_user_events_summary [OF ne small nonan] obtain counts where
    c: "aggregate_user_events example_events =
       Inr [''total_events'' \<mapsto> Scalar (VInt (int (length example_events))),
            ''event_type_counts'' \<mapsto> Counts counts,
            ''active_users'' \<mapsto> Scalar (VInt (int (card (user_id_of ` set example_events)))),
            ''avg_events_per_user'' \<mapsto>
               Scalar (val_of (round_double (of_nat (length example_events)
                  / of_nat (card (user_id_of ` set example_events)))))]"
    and m: "\<And>k. map_of counts k =
           (if k \<in> event_type_of ` set example_events
            then Some (int (count_list (map event_type_of example_events) k)) else None)"
    by blast
  have keys: "fst ` set counts = {KStr ''a'', KStr ''b''}"
  proof -
    have "dom (map_of counts) = {KStr ''a'', KStr ''b''}"
      using m set_tys by (auto simp: dom_def split: if_splits)
    then show ?thesis by (simp add: dom_map_of_conv_image_fst)
  qed
  have c': "aggregate_user_events example_events =
       Inr [''total_events'' \<mapsto> Scalar (VInt 3),
            ''event_type_counts'' \<mapsto> Counts counts,
            ''active_users'' \<mapsto> Scalar (VInt 2),
            ''avg_events_per_user'' \<mapsto> Scalar (VFloat (3 / 2))]"
    using c by (simp add: ids len round_double_examples)
  have "map_of counts (KStr ''a'') = Some 2" "map_of counts (KStr ''b'') = Some 1"
    using m [of "KStr ''a''"] m [of "KStr ''b''"] by (simp_all add: tys set_tys)
  with c' keys show "\<exists>counts.
     aggregate_user_events example_events =
       Inr [''total_events'' \<mapsto> Scalar (VInt 3),
            ''event_type_counts'' \<mapsto> Counts counts,
            ''active_users'' \<mapsto> Scalar (VInt 2),
            ''avg_events_per_user'' \<mapsto> Scalar (VFloat (3 / 2))]
     \<and> map_of counts (KStr ''a'') = Some 2 \<and> map_of counts (KStr ''b'') = Some 1
     \<and> fst ` set counts = {KStr ''a'', KStr ''b''}"
    by blast
next
  have ne: "uneven_events \<noteq> []"
    by (simp add: uneven_events_def)
  have ids: "user_id_of ` set uneven_events = {KNum 1, KNum 2, KNum 3}"
    by (auto simp: uneven_events_def user_event_def user_id_of_def dict_get_def)
  have tys: "event_type_of ` set uneven_events = {KStr ''a'', KStr ''b''}"
    by (auto simp: uneven_events_def user_event_def event_type_of_def dict_get_def)
  have len: "length uneven_events = 4"
    by (simp add: uneven_events_def)
  have small: "length uneven_events < 2 ^ 63"
    by (simp add: len)
  have nonan: "KNaN \<notin> event_type_of ` set uneven_events"
    "KNaN \<notin> user_id_of ` set uneven_events"
    by (simp_all add: ids tys)
  from aggregate_user_events_summary [OF ne small nonan] obtain counts where
    "aggregate_user_events uneven_events =
       Inr [''total_events'' \<mapsto> Scalar (VInt (int (length uneven_events))),
            ''event_type_counts'' \<mapsto> Counts counts,
            ''active_users'' \<mapsto> Scalar (VInt (int (card (user_id_of ` set uneven_events)))),
            ''avg_events_per_user'' \<mapsto>
               Scalar (val_of (round_double (of_nat (length uneven_events)
                  / of_nat (card (user_id_of ` set uneven_events)))))]"
    by blast
  then have "aggregate_user_events uneven_events =
       Inr [''total_events'' \<mapsto> Scalar (VInt 4),
            ''event_type_counts'' \<mapsto> Counts counts,
            ''active_users'' \<mapsto> Scalar (VInt 3),
            ''avg_events_per_user'' \<mapsto>
               Scalar (VFloat (6004799503160661 / 4503599627370496))]"
    by (simp add: ids len round_double_examples)
  then show "\<exists>counts.
     aggregate_user_events uneven_events =
       Inr [''total_events'' \<mapsto> Scalar (VInt 4),
            ''event_type_counts'' \<mapsto> Counts counts,
            ''active_users'' \<mapsto> Scalar (VInt 3),
            ''avg_events_per_user'' \<mapsto>
               Scalar (VFloat (6004799503160661 / 4503599627370496))]"
    by blast
qed

end
